theory Spec2Isabelle
  imports Complex_Main
begin

section \<open>The Visualizer animation engine\<close>

text \<open>
  A shallow embedding of the \<open>Visualizer\<close> component: its props, its mutable refs and
  rendered state, the per-frame callback \<open>animate\<close>, and the effect that runs whenever
  \<open>isPlaying\<close> or one of the parameters changes.

  JavaScript numbers are modelled as mathematical reals: rounding, \<open>NaN\<close> and
  \<open>Infinity\<close> are not represented. A division by zero is \<open>0\<close> in HOL where JavaScript
  gives \<open>NaN\<close> or \<open>Infinity\<close>, so a statement about the value of a quotient says
  something about the program only where the divisor is not zero: the speed and the
  separation are positive in the range of the application's sliders.
\<close>

subsection \<open>JavaScript arithmetic\<close>

text \<open>\<open>a % b\<close>: the remainder of the division truncated toward zero; its sign is the
  sign of the dividend.\<close>

definition trunc :: "real \<Rightarrow> int" where
  "trunc x = (if x < 0 then \<lceil>x\<rceil> else \<lfloor>x\<rfloor>)"

definition js_rem :: "real \<Rightarrow> real \<Rightarrow> real" where
  "js_rem a b = a - b * of_int (trunc (a / b))"

subsection \<open>Props and state\<close>

datatype phase_mode = Parallel | Global

record params =
  speed :: real
  endSizePct :: real
  separation :: real
  rotationSpeed :: real
  phaseInterval :: real

text \<open>The refs of the component (\<open>startTimeRef\<close> is \<open>number | null\<close>), whether a frame
  callback is pending (\<open>requestRef\<close>), and the four rendered state variables.\<close>

record visualizer =
  startTimeRef :: "real option"
  pausedTimeRef :: real
  lastFrameTimeRef :: real
  currentRotationRef :: real
  targetDirectionRef :: real
  smoothedDirectionRef :: real
  nextDirectionChangeTimeRef :: real
  requestRef :: bool
  scale :: real
  rotation :: real
  offsetX :: real
  phaseMode :: phase_mode

definition R_OUT :: real where
  "R_OUT = 100"

definition maxScale :: "params \<Rightarrow> real" where
  "maxScale p = separation p / (2 * R_OUT)"

definition minScale :: "params \<Rightarrow> real" where
  "minScale p = maxScale p * endSizePct p"

definition baseOffset :: "params \<Rightarrow> real" where
  "baseOffset p = (separation p / 2) + 0.5"

text \<open>The state at mount: the initial values of the refs and of \<open>useState\<close>.\<close>

definition initial :: "params \<Rightarrow> visualizer" where
  "initial p =
     \<lparr> startTimeRef = None, pausedTimeRef = 0, lastFrameTimeRef = 0,
       currentRotationRef = 0, targetDirectionRef = 1, smoothedDirectionRef = 0,
       nextDirectionChangeTimeRef = 0, requestRef = False,
       scale = maxScale p, rotation = 0, offsetX = baseOffset p, phaseMode = Parallel \<rparr>"

subsection \<open>The frame callback\<close>

text \<open>The local constants of \<open>animate\<close>, as functions of the elapsed time.\<close>

definition cycleDuration :: "params \<Rightarrow> real" where
  "cycleDuration p = 4000 / speed p"

definition cycleCount :: "params \<Rightarrow> real \<Rightarrow> int" where
  "cycleCount p elapsedTotal = \<lfloor>elapsedTotal / cycleDuration p\<rfloor>"

definition phaseGroup :: "params \<Rightarrow> real \<Rightarrow> int" where
  "phaseGroup p elapsedTotal = \<lfloor>of_int (cycleCount p elapsedTotal) / phaseInterval p\<rfloor>"

definition isGlobalPhase :: "params \<Rightarrow> real \<Rightarrow> bool" where
  "isGlobalPhase p elapsedTotal = (js_rem (of_int (phaseGroup p elapsedTotal)) 2 \<noteq> 0)"

definition currentMode :: "params \<Rightarrow> real \<Rightarrow> phase_mode" where
  "currentMode p elapsedTotal = (if isGlobalPhase p elapsedTotal then Global else Parallel)"

definition cyclePos :: "params \<Rightarrow> real \<Rightarrow> real" where
  "cyclePos p elapsedTotal = js_rem elapsedTotal (cycleDuration p) / cycleDuration p"

definition oscillation :: "real \<Rightarrow> real" where
  "oscillation t = (cos (t * pi * 2) + 1) / 2"

definition scaleAt :: "params \<Rightarrow> real \<Rightarrow> real" where
  "scaleAt p t = minScale p + (maxScale p - minScale p) * oscillation t"

definition currentScale :: "params \<Rightarrow> real \<Rightarrow> real" where
  "currentScale p elapsedTotal = scaleAt p (cyclePos p elapsedTotal)"

definition offsetFor :: "params \<Rightarrow> bool \<Rightarrow> real \<Rightarrow> real" where
  "offsetFor p isGlobal curScale =
     (if isGlobal then baseOffset p * (curScale / maxScale p) else baseOffset p)"

definition currentOffset :: "params \<Rightarrow> real \<Rightarrow> real" where
  "currentOffset p elapsedTotal =
     offsetFor p (isGlobalPhase p elapsedTotal) (currentScale p elapsedTotal)"

text \<open>Steps 1 and 2 of \<open>animate\<close>: the start time is initialised when it is \<open>null\<close>, the
  last frame time when it is \<open>0\<close>; \<open>dt\<close> is the time since the last frame.\<close>

definition frameStart :: "visualizer \<Rightarrow> real \<Rightarrow> real" where
  "frameStart s time = (case startTimeRef s of None \<Rightarrow> time | Some st \<Rightarrow> st)"

definition frameDelta :: "visualizer \<Rightarrow> real \<Rightarrow> real" where
  "frameDelta s time =
     time - (if lastFrameTimeRef s = 0 then time else lastFrameTimeRef s)"

text \<open>The rotation block of \<open>animate\<close>. The two calls of \<open>Math.random()\<close> are the
  arguments \<open>rnd1\<close> and \<open>rnd2\<close>.\<close>

definition rotationStep :: "params \<Rightarrow> real \<Rightarrow> real \<Rightarrow> real \<Rightarrow> real \<Rightarrow> visualizer \<Rightarrow> visualizer" where
  "rotationStep p time dt rnd1 rnd2 s =
     (if rotationSpeed p > 0 then
        let reroll = time > nextDirectionChangeTimeRef s;
            target = (if reroll then (if rnd1 > 0.5 then 1 else - 1) else targetDirectionRef s);
            next = (if reroll then time + 2000 + rnd2 * 4000 else nextDirectionChangeTimeRef s);
            lerpFactor = 0.02;
            smoothed = smoothedDirectionRef s + (target - smoothedDirectionRef s) * lerpFactor;
            baseSpeedMs = (rotationSpeed p * 90) / 1000;
            deltaRotation = baseSpeedMs * smoothed * dt
        in s \<lparr> targetDirectionRef := target,
               nextDirectionChangeTimeRef := next,
               smoothedDirectionRef := smoothed,
               currentRotationRef := js_rem (currentRotationRef s + deltaRotation) 360 \<rparr>
      else s)"

definition animate :: "params \<Rightarrow> real \<Rightarrow> real \<Rightarrow> real \<Rightarrow> visualizer \<Rightarrow> visualizer" where
  "animate p time rnd1 rnd2 s =
     (let start = frameStart s time;
          dt = frameDelta s time;
          elapsedTotal = time - start;
          s1 = s \<lparr> startTimeRef := Some start, lastFrameTimeRef := time \<rparr>;
          s2 = rotationStep p time dt rnd1 rnd2 s1
      in s2 \<lparr> scale := currentScale p elapsedTotal,
              offsetX := currentOffset p elapsedTotal,
              rotation := currentRotationRef s2,
              phaseMode := currentMode p elapsedTotal,
              requestRef := True \<rparr>)"

subsection \<open>The effect\<close>

text \<open>The body of the effect, run at \<open>performance.now() = now\<close>. With \<open>isPlaying\<close> it
  (re)starts the clock and requests a frame; otherwise it cancels the pending frame,
  freezes the clock and renders the static frame. The static frame repeats the formulas
  of \<open>animate\<close> on \<open>pausedTimeRef\<close>; it is written out here as the source writes it.\<close>

definition effect :: "bool \<Rightarrow> params \<Rightarrow> real \<Rightarrow> visualizer \<Rightarrow> visualizer" where
  "effect isPlaying p now s =
     (if isPlaying then
        s \<lparr> startTimeRef := Some (now - pausedTimeRef s),
            lastFrameTimeRef := now,
            nextDirectionChangeTimeRef :=
              (if nextDirectionChangeTimeRef s < now then now + 1000
               else nextDirectionChangeTimeRef s),
            requestRef := True \<rparr>
      else
        let paused = (case startTimeRef s of None \<Rightarrow> pausedTimeRef s | Some st \<Rightarrow> now - st);
            cycleDur = 4000 / speed p;
            cycleCnt = \<lfloor>paused / cycleDur\<rfloor>;
            phaseGrp = \<lfloor>of_int cycleCnt / phaseInterval p\<rfloor>;
            isGlobal = (js_rem (of_int phaseGrp) 2 \<noteq> 0);
            t = js_rem paused cycleDur / cycleDur;
            phase = (cos (t * pi * 2) + 1) / 2;
            curScale = minScale p + (maxScale p - minScale p) * phase;
            curOffset = (if isGlobal then baseOffset p * (curScale / maxScale p)
                         else baseOffset p)
        in s \<lparr> requestRef := False,
               pausedTimeRef := paused,
               startTimeRef := None,
               scale := curScale,
               offsetX := curOffset,
               phaseMode := (if isGlobal then Global else Parallel) \<rparr>)"

text \<open>The elapsed active time: what \<open>animate\<close> computes as \<open>elapsedTotal\<close> at time \<open>now\<close>
  while the clock runs, and the frozen \<open>pausedTimeRef\<close> while it is stopped.\<close>

definition elapsedActiveTime :: "visualizer \<Rightarrow> real \<Rightarrow> real" where
  "elapsedActiveTime s now =
     (case startTimeRef s of None \<Rightarrow> pausedTimeRef s | Some st \<Rightarrow> now - st)"

subsection \<open>Runs of the component\<close>

text \<open>What can happen to a mounted component: the \<open>isPlaying\<close> prop changes, a parameter
  prop changes (either re-runs the effect, after the cleanup of the previous run has
  cancelled the pending frame), or the pending frame callback fires.\<close>

datatype event =
    SetPlaying bool real
  | SetParams params real
  | Frame real real real

record component =
  isPlaying :: bool
  props :: params
  refs :: visualizer

definition cleanup :: "visualizer \<Rightarrow> visualizer" where
  "cleanup s = s \<lparr> requestRef := False \<rparr>"

fun step :: "component \<Rightarrow> event \<Rightarrow> component" where
  "step c (SetPlaying b now) =
     (if b = isPlaying c then c
      else c \<lparr> isPlaying := b, refs := effect b (props c) now (cleanup (refs c)) \<rparr>)"
| "step c (SetParams p now) =
     (if p = props c then c
      else c \<lparr> props := p, refs := effect (isPlaying c) p now (cleanup (refs c)) \<rparr>)"
| "step c (Frame time rnd1 rnd2) =
     (if requestRef (refs c) then c \<lparr> refs := animate (props c) time rnd1 rnd2 (refs c) \<rparr>
      else c)"

text \<open>Mounting renders the initial state and runs the effect once.\<close>

definition mount :: "bool \<Rightarrow> params \<Rightarrow> real \<Rightarrow> component" where
  "mount b p now = \<lparr> isPlaying = b, props = p, refs = effect b p now (initial p) \<rparr>"

definition run :: "component \<Rightarrow> event list \<Rightarrow> component" where
  "run c evs = foldl step c evs"

text \<open>A sequence of frames with fixed parameters.\<close>

definition frames :: "params \<Rightarrow> (real \<times> real \<times> real) list \<Rightarrow> visualizer \<Rightarrow> visualizer" where
  "frames p fs s = foldl (\<lambda>s (time, rnd1, rnd2). animate p time rnd1 rnd2 s) s fs"

text \<open>A sequence of resume/pause cycles: each starts the clock at \<open>a\<close>, runs some
  frames and stops the clock at \<open>b\<close>.\<close>

fun cycles :: "params \<Rightarrow> (real \<times> (real \<times> real \<times> real) list \<times> real) list \<Rightarrow> visualizer \<Rightarrow> visualizer" where
  "cycles p [] s = s"
| "cycles p ((a, fs, b) # cs) s =
     cycles p cs (effect False p b (frames p fs (effect True p a s)))"

subsection \<open>The parameters of the application\<close>

text \<open>The initial values of the parameter state variables of \<open>App\<close>, and a component
  with these parameters whose clock was started at timestamp \<open>0\<close>.\<close>

definition appDefaults :: params where
  "appDefaults =
     \<lparr> speed = 0.5, endSizePct = 0.4, separation = 1000, rotationSpeed = 0.5,
       phaseInterval = 3 \<rparr>"

definition startedAt0 :: visualizer where
  "startedAt0 = (initial appDefaults) \<lparr> startTimeRef := Some 0 \<rparr>"

section \<open>Properties of the remainder\<close>

lemma trunc_of_int: "trunc (of_int k) = k"
  by (simp add: trunc_def)

lemma trunc_close: "\<bar>x - of_int (trunc x)\<bar> < 1"
  unfolding trunc_def by (simp; linarith)

lemma js_rem_bound:
  assumes "0 < b"
  shows "\<bar>js_rem a b\<bar> < b"
proof -
  have eq: "js_rem a b = b * (a / b - of_int (trunc (a / b)))"
    using assms by (simp add: js_rem_def algebra_simps)
  have "\<bar>js_rem a b\<bar> = b * \<bar>a / b - of_int (trunc (a / b))\<bar>"
    using assms by (simp add: eq abs_mult)
  also have "\<dots> < b * 1"
    using assms trunc_close [of "a / b"] by (intro mult_strict_left_mono) simp_all
  finally show ?thesis by simp
qed

lemma js_rem_nonneg:
  assumes "0 < b" "0 \<le> a"
  shows "0 \<le> js_rem a b"
proof -
  have q: "0 \<le> a / b" using assms by simp
  have "b * of_int \<lfloor>a / b\<rfloor> \<le> b * (a / b)"
    using assms(1) by (intro mult_left_mono) simp_all
  then have "b * of_int \<lfloor>a / b\<rfloor> \<le> a"
    using assms(1) by simp
  then show ?thesis using q by (simp add: js_rem_def trunc_def)
qed

lemma js_rem_nonpos:
  assumes "0 < b" "a \<le> 0"
  shows "js_rem a b \<le> 0"
proof (cases "a / b < 0")
  case True
  have "b * (a / b) \<le> b * of_int \<lceil>a / b\<rceil>"
    using assms(1) by (intro mult_left_mono) simp_all
  then have "a \<le> b * of_int \<lceil>a / b\<rceil>"
    using assms(1) by simp
  then show ?thesis using True by (simp add: js_rem_def trunc_def)
next
  case False
  then have "a = 0" using assms by (simp add: divide_less_0_iff not_less) 
  then show ?thesis by (simp add: js_rem_def trunc_def)
qed

lemma js_rem_small:
  assumes "\<bar>a\<bar> < b"
  shows "js_rem a b = a"
proof -
  have b: "0 < b" using assms by simp
  have "\<bar>a / b\<bar> < 1" using assms b by simp
  then have "trunc (a / b) = 0"
    unfolding trunc_def by (simp; linarith)
  then show ?thesis by (simp add: js_rem_def)
qed

lemma js_rem_of_int_2: "js_rem (of_int n) 2 \<noteq> 0 \<longleftrightarrow> odd n"
proof (cases "even n")
  case True
  then obtain m where n: "n = 2 * m" by (elim evenE)
  have "(of_int n :: real) / 2 = of_int m" by (simp add: n)
  then have "trunc (of_int n / 2) = m" by (simp add: trunc_of_int)
  then show ?thesis using True by (simp add: js_rem_def n)
next
  case False
  have "js_rem (of_int n) 2 = of_int (n - 2 * trunc (of_int n / 2))"
    by (simp add: js_rem_def)
  moreover have "n - 2 * trunc (of_int n / 2) \<noteq> 0"
    using False by presburger
  ultimately show ?thesis using False by simp
qed

section \<open>Derived constants\<close>

text \<open>C9: with \<open>separation = 1000\<close>, \<open>R_OUT = 100\<close> and \<open>endSizePct = 0.4\<close> the derived
  constants are \<open>maxScale = separation / (2 * R_OUT) = 5\<close>,
  \<open>minScale = maxScale * endSizePct = 2\<close> and \<open>baseOffset = separation / 2 + 0.5 = 500.5\<close>.\<close>

theorem derived_constants_scenario:
  "separation appDefaults = 1000 \<and> R_OUT = 100 \<and> endSizePct appDefaults = 0.4 \<and>
   maxScale appDefaults = separation appDefaults / (2 * R_OUT) \<and> maxScale appDefaults = 5 \<and>
   minScale appDefaults = maxScale appDefaults * endSizePct appDefaults \<and> minScale appDefaults = 2 \<and>
   baseOffset appDefaults = separation appDefaults / 2 + 0.5 \<and> baseOffset appDefaults = 500.5"
  by (simp add: maxScale_def minScale_def baseOffset_def R_OUT_def appDefaults_def)

section \<open>The clock\<close>

lemma animate_startTimeRef: "startTimeRef (animate p time rnd1 rnd2 s) = Some (frameStart s time)"
  by (simp add: animate_def rotationStep_def Let_def)

lemma animate_pausedTimeRef: "pausedTimeRef (animate p time rnd1 rnd2 s) = pausedTimeRef s"
  by (simp add: animate_def rotationStep_def Let_def)

lemma frames_clock:
  "startTimeRef s = Some st \<Longrightarrow>
     startTimeRef (frames p fs s) = Some st \<and> pausedTimeRef (frames p fs s) = pausedTimeRef s"
proof (induction fs arbitrary: s)
  case Nil
  then show ?case by (simp add: frames_def)
next
  case (Cons f fs)
  obtain time rnd1 rnd2 where f: "f = (time, rnd1, rnd2)" by (cases f)
  have "startTimeRef (animate p time rnd1 rnd2 s) = Some st"
    using Cons.prems by (simp add: animate_startTimeRef frameStart_def)
  from Cons.IH [OF this] show ?case
    by (simp add: frames_def f animate_pausedTimeRef)
qed

lemma cycle_pausedTimeRef:
  "pausedTimeRef (effect False p b (frames p fs (effect True p' a s))) = pausedTimeRef s + (b - a)"
proof -
  have "startTimeRef (effect True p' a s) = Some (a - pausedTimeRef s)"
    by (simp add: effect_def)
  from frames_clock [OF this]
  show ?thesis by (simp add: effect_def Let_def)
qed

lemma cycles_pausedTimeRef:
  "pausedTimeRef (cycles p cs s) = pausedTimeRef s + (\<Sum>(a, fs, b)\<leftarrow>cs. b - a)"
proof (induction cs arbitrary: s)
  case Nil
  show ?case by simp
next
  case (Cons c cs)
  obtain a fs b where c: "c = (a, fs, b)" by (cases c)
  show ?case by (simp add: c Cons.IH cycle_pausedTimeRef)
qed

lemma cycles_startTimeRef:
  "startTimeRef s = None \<Longrightarrow> startTimeRef (cycles p cs s) = None"
proof (induction cs arbitrary: s)
  case Nil
  then show ?case by simp
next
  case (Cons c cs)
  obtain a fs b where c: "c = (a, fs, b)" by (cases c)
  have "startTimeRef (effect False p b (frames p fs (effect True p a s))) = None"
    by (simp add: effect_def Let_def)
  from Cons.IH [OF this] show ?case by (simp add: c)
qed

text \<open>C2: from any clock state, stopping at \<open>t\<close> and starting again at \<open>t'\<close> leaves the
  elapsed active time unchanged: read at \<open>t'\<close> after the restart it is what it was at \<open>t\<close>
  just before the stop. After any finite sequence of resume/pause cycles from the
  initial state, with any frames in between, the elapsed active time is the sum of the
  lengths \<open>b - a\<close> of the active intervals; the time spent paused is not counted.\<close>

theorem pause_resume_preserves_elapsed:
  "elapsedActiveTime (effect True p' t' (effect False p t s)) t' = elapsedActiveTime s t \<and>
   elapsedActiveTime (cycles p cs (initial p)) now = (\<Sum>(a, fs, b)\<leftarrow>cs. b - a)"
proof
  show "elapsedActiveTime (effect True p' t' (effect False p t s)) t' = elapsedActiveTime s t"
    by (simp add: elapsedActiveTime_def effect_def Let_def split: option.split)
next
  have "startTimeRef (cycles p cs (initial p)) = None"
    by (rule cycles_startTimeRef) (simp add: initial_def)
  then show "elapsedActiveTime (cycles p cs (initial p)) now = (\<Sum>(a, fs, b)\<leftarrow>cs. b - a)"
    by (simp add: elapsedActiveTime_def cycles_pausedTimeRef initial_def)
qed

lemma effect_play_elapsed:
  "elapsedActiveTime (effect True p now s) now = pausedTimeRef s"
  by (simp add: elapsedActiveTime_def effect_def)

text \<open>C1: while the engine runs, a parameter change should leave the elapsed active time
  as it is. The effect re-runs on a parameter change and sets the start time to
  \<open>now - pausedTimeRef\<close>, whatever the clock shows: after a start at \<open>1000\<close> and a frame
  at \<open>3000\<close> the elapsed time is \<open>2000\<close>, and changing \<open>speed\<close> at \<open>3000\<close> puts it back to
  \<open>0\<close>, the value of the last pause.\<close>

theorem param_change_resets_elapsed:
  "(let c1 = run (mount False appDefaults 0) [SetPlaying True 1000, Frame 3000 0.5 0.5];
        c2 = step c1 (SetParams (appDefaults \<lparr> speed := 1 \<rparr>) 3000)
    in isPlaying c1 \<and> isPlaying c2 \<and>
       elapsedActiveTime (refs c1) 3000 = 2000 \<and>
       elapsedActiveTime (refs c2) 3000 = 0)"
  by (simp add: run_def mount_def effect_def cleanup_def initial_def animate_def rotationStep_def
      frameStart_def elapsedActiveTime_def appDefaults_def Let_def)

section \<open>Cycle and phase\<close>

lemma currentMode_odd: "currentMode p E = Global \<longleftrightarrow> odd (phaseGroup p E)"
  by (simp add: currentMode_def isGlobalPhase_def js_rem_of_int_2)

lemma currentMode_even: "currentMode p E = Parallel \<longleftrightarrow> even (phaseGroup p E)"
  by (simp add: currentMode_def isGlobalPhase_def js_rem_of_int_2)

lemma phaseGroup_nat:
  assumes "phaseInterval p = of_nat P"
  shows "phaseGroup p E = cycleCount p E div int P"
proof -
  have "phaseGroup p E = \<lfloor>real_of_int (cycleCount p E) / real_of_int (int P)\<rfloor>"
    by (simp add: phaseGroup_def assms)
  then show ?thesis by (simp only: floor_divide_of_int_eq)
qed

lemma cycleCount_shift:
  assumes "0 < speed p"
  shows "cycleCount p (E + of_nat P * cycleDuration p) = cycleCount p E + int P"
proof -
  have cd: "cycleDuration p \<noteq> 0" using assms by (simp add: cycleDuration_def)
  have "(E + of_nat P * cycleDuration p) / cycleDuration p = E / cycleDuration p + of_int (int P)"
    using cd by (simp add: add_divide_distrib)
  then show ?thesis by (simp add: cycleCount_def del: of_int_of_nat_eq)
qed

lemma phaseGroup_shift:
  assumes "0 < speed p" "phaseInterval p = of_nat P" "1 \<le> P"
  shows "phaseGroup p (E + of_nat P * cycleDuration p) = phaseGroup p E + 1"
  using assms by (simp add: phaseGroup_nat cycleCount_shift)

lemma animate_phaseMode:
  "phaseMode (animate p time rnd1 rnd2 s) = currentMode p (time - frameStart s time)"
  by (simp add: animate_def Let_def)

text \<open>C3: for elapsed time \<open>E \<ge> 0\<close>, speed \<open>S > 0\<close> and an integer phase interval \<open>P \<ge> 1\<close>
  the resolver computes \<open>cycleDuration = 4000 / S\<close>, \<open>cycleCount = floor (E / cycleDuration)\<close>,
  \<open>phaseGroup = floor (cycleCount / P)\<close>, and the mode of the frame is Global iff
  \<open>phaseGroup\<close> is odd, Parallel iff it is even. The mode is Parallel at \<open>E = 0\<close> and
  changes after every \<open>P\<close> cycles. With \<open>S = 0.5\<close> and \<open>P = 3\<close> the mode is Parallel at
  \<open>0\<close> and at \<open>23999\<close>, and Global at \<open>24001\<close>.\<close>

theorem phase_resolver:
  assumes "0 \<le> E" and "0 < speed p" and "phaseInterval p = of_nat P" and "1 \<le> P"
  shows "cycleDuration p = 4000 / speed p \<and>
         cycleCount p E = \<lfloor>E / (4000 / speed p)\<rfloor> \<and>
         phaseGroup p E = \<lfloor>real_of_int (cycleCount p E) / real P\<rfloor> \<and>
         (currentMode p E = Global \<longleftrightarrow> odd (phaseGroup p E)) \<and>
         (currentMode p E = Parallel \<longleftrightarrow> even (phaseGroup p E)) \<and>
         phaseMode (animate p (st + E) rnd1 rnd2 (s \<lparr> startTimeRef := Some st \<rparr>)) = currentMode p E \<and>
         currentMode p 0 = Parallel \<and>
         currentMode p (E + of_nat P * cycleDuration p) \<noteq> currentMode p E \<and>
         (speed p = 0.5 \<and> P = 3 \<longrightarrow>
            currentMode p 0 = Parallel \<and> currentMode p 23999 = Parallel \<and>
            currentMode p 24001 = Global)"
proof -
  have zero: "currentMode p 0 = Parallel"
    by (simp add: currentMode_even phaseGroup_def cycleCount_def)
  have alt: "currentMode p (E + of_nat P * cycleDuration p) \<noteq> currentMode p E"
  proof (cases "even (phaseGroup p E)")
    case True
    then have "currentMode p E = Parallel" by (simp add: currentMode_even)
    moreover have "currentMode p (E + of_nat P * cycleDuration p) = Global"
      using True assms by (simp add: currentMode_odd phaseGroup_shift)
    ultimately show ?thesis by simp
  next
    case False
    then have "currentMode p E = Global" by (simp add: currentMode_odd)
    moreover have "currentMode p (E + of_nat P * cycleDuration p) = Parallel"
      using False assms by (simp add: currentMode_even phaseGroup_shift)
    ultimately show ?thesis by simp
  qed
  have scen: "currentMode p 23999 = Parallel \<and> currentMode p 24001 = Global"
    if "speed p = 0.5" "P = 3"
  proof -
    have cd: "cycleDuration p = 8000"
      by (simp add: cycleDuration_def that(1))
    have pg: "phaseGroup p x = \<lfloor>x / 8000\<rfloor> div 3" for x
      using assms(3) that(2) by (simp add: phaseGroup_nat cycleCount_def cd)
    show ?thesis
      by (simp add: currentMode_even currentMode_odd pg)
  qed
  show ?thesis
    using zero alt scen
    by (simp add: cycleDuration_def cycleCount_def phaseGroup_def assms(3) currentMode_odd
        currentMode_even animate_phaseMode frameStart_def)
qed

theorem phase_resolver_witness:
  "(0::real) \<le> 23999 \<and> 0 < speed appDefaults \<and> phaseInterval appDefaults = of_nat 3 \<and> (1::nat) \<le> 3 \<and>
   cycleDuration appDefaults = 8000 \<and> cycleCount appDefaults 23999 = 2 \<and> phaseGroup appDefaults 23999 = 0 \<and>
   currentMode appDefaults 23999 = Parallel \<and> currentMode appDefaults 24001 = Global \<and>
   currentMode appDefaults 47999 \<noteq> Parallel"
proof -
  have h: "(0::real) \<le> 23999" "0 < speed appDefaults" "phaseInterval appDefaults = of_nat 3" "(1::nat) \<le> 3"
    by (simp_all add: appDefaults_def)
  have sp: "speed appDefaults = 0.5" by (simp add: appDefaults_def)
  have cd: "cycleDuration appDefaults = 8000" by (simp add: cycleDuration_def appDefaults_def)
  have cc: "cycleCount appDefaults 23999 = 2" by (simp add: cycleCount_def cd)
  have pg: "phaseGroup appDefaults 23999 = 0" by (simp add: phaseGroup_def cc h(3))
  from phase_resolver [OF h, of 0 0 0 "initial appDefaults"] sp show ?thesis
    using h by (auto simp add: cd cc pg)
qed

section \<open>Scale and offset\<close>

lemma animate_offsetX:
  "offsetX (animate p time rnd1 rnd2 s) = currentOffset p (time - frameStart s time)"
  by (simp add: animate_def Let_def)

lemma animate_scale:
  "scale (animate p time rnd1 rnd2 s) = currentScale p (time - frameStart s time)"
  by (simp add: animate_def Let_def)

text \<open>C4: in every frame, of the running path (\<open>animate\<close>) and of the static paused path
  (the effect with \<open>isPlaying\<close> false): when the mode is Parallel, \<open>offsetX\<close> is
  \<open>baseOffset\<close> whatever the scale; when it is Global, \<open>offsetX\<close> is
  \<open>baseOffset * (scale / maxScale)\<close>. So \<open>offsetX\<close> is \<open>baseOffset\<close> at the maximal scale and,
  in Global mode, a linear function of the scale that is \<open>0\<close> at scale \<open>0\<close>.\<close>

theorem offset_by_phase_mode:
  "(let f = animate p time rnd1 rnd2 s in
      (phaseMode f = Parallel \<longrightarrow> offsetX f = baseOffset p) \<and>
      (phaseMode f = Global \<longrightarrow> offsetX f = baseOffset p * (scale f / maxScale p)) \<and>
      (separation p \<noteq> 0 \<and> scale f = maxScale p \<longrightarrow> offsetX f = baseOffset p)) \<and>
   (let f = effect False p now s in
      (phaseMode f = Parallel \<longrightarrow> offsetX f = baseOffset p) \<and>
      (phaseMode f = Global \<longrightarrow> offsetX f = baseOffset p * (scale f / maxScale p)) \<and>
      (separation p \<noteq> 0 \<and> scale f = maxScale p \<longrightarrow> offsetX f = baseOffset p)) \<and>
   (separation p \<noteq> 0 \<longrightarrow>
      offsetFor p True (maxScale p) = baseOffset p \<and> offsetFor p True 0 = 0 \<and>
      (\<forall>c. offsetFor p True c = (baseOffset p / maxScale p) * c)) \<and>
   (\<forall>c. offsetFor p False c = baseOffset p)"
proof -
  have m: "maxScale p \<noteq> 0" if "separation p \<noteq> 0"
    using that by (simp add: maxScale_def R_OUT_def)
  have a: "let f = animate p time rnd1 rnd2 s in
      (phaseMode f = Parallel \<longrightarrow> offsetX f = baseOffset p) \<and>
      (phaseMode f = Global \<longrightarrow> offsetX f = baseOffset p * (scale f / maxScale p)) \<and>
      (separation p \<noteq> 0 \<and> scale f = maxScale p \<longrightarrow> offsetX f = baseOffset p)"
    using m
    by (simp add: Let_def animate_phaseMode animate_offsetX animate_scale currentMode_def
        currentOffset_def offsetFor_def)
  have b: "let f = effect False p now s in
      (phaseMode f = Parallel \<longrightarrow> offsetX f = baseOffset p) \<and>
      (phaseMode f = Global \<longrightarrow> offsetX f = baseOffset p * (scale f / maxScale p)) \<and>
      (separation p \<noteq> 0 \<and> scale f = maxScale p \<longrightarrow> offsetX f = baseOffset p)"
    using m by (simp add: Let_def effect_def)
  have c: "offsetFor p True (maxScale p) = baseOffset p \<and> offsetFor p True 0 = 0 \<and>
      (\<forall>c. offsetFor p True c = (baseOffset p / maxScale p) * c)" if "separation p \<noteq> 0"
    using m [OF that] by (simp add: offsetFor_def)
  have d: "\<forall>c. offsetFor p False c = baseOffset p"
    by (simp add: offsetFor_def)
  from a b c d show ?thesis by blast
qed

lemma appDefaults_consts: "maxScale appDefaults = 5" "minScale appDefaults = 2" "baseOffset appDefaults = 500.5" "cycleDuration appDefaults = 8000"
  "phaseInterval appDefaults = 3" "separation appDefaults = 1000"
  by (simp_all add: maxScale_def minScale_def baseOffset_def R_OUT_def cycleDuration_def appDefaults_def)

lemma js_rem_numerals: "js_rem 24000 8000 = 0" "js_rem 4000 8000 = 4000" "js_rem 1 2 = 1" "js_rem 0 2 = 0" 
  by (simp_all add: js_rem_def trunc_def)

theorem offset_by_phase_mode_witness:
  "phaseMode (animate appDefaults 24000 0 0 startedAt0) = Global \<and>
   scale (animate appDefaults 24000 0 0 startedAt0) = maxScale appDefaults \<and>
   offsetX (animate appDefaults 24000 0 0 startedAt0) = baseOffset appDefaults \<and>
   phaseMode (effect False appDefaults 4000 startedAt0) = Parallel \<and>
   scale (effect False appDefaults 4000 startedAt0) = 2 \<and>
   offsetX (effect False appDefaults 4000 startedAt0) = baseOffset appDefaults \<and>
   separation appDefaults \<noteq> 0"
proof -
  have g: "phaseMode (animate appDefaults 24000 0 0 startedAt0) = Global"
    by (simp add: animate_phaseMode frameStart_def startedAt0_def currentMode_def isGlobalPhase_def
        phaseGroup_def cycleCount_def appDefaults_consts js_rem_numerals)
  have sc: "scale (animate appDefaults 24000 0 0 startedAt0) = maxScale appDefaults"
    by (simp add: animate_scale frameStart_def startedAt0_def currentScale_def cyclePos_def scaleAt_def
        oscillation_def appDefaults_consts js_rem_numerals)
  have e: "phaseMode (effect False appDefaults 4000 startedAt0) = Parallel"
    "scale (effect False appDefaults 4000 startedAt0) = 2"
    by (simp_all add: effect_def startedAt0_def Let_def appDefaults_consts js_rem_numerals cycleDuration_def [symmetric])
  from offset_by_phase_mode [of appDefaults 24000 0 0 startedAt0 4000] g sc e show ?thesis
    by (simp add: Let_def appDefaults_consts)
qed

lemma oscillation_range: "0 \<le> oscillation t \<and> oscillation t \<le> 1"
proof -
  have "0 \<le> (c + 1) / 2 \<and> (c + 1) / 2 \<le> 1" if "- 1 \<le> c" "c \<le> 1" for c :: real
    using that by auto
  from this [OF cos_ge_minus_one cos_le_one] show ?thesis
    unfolding oscillation_def .
qed

lemma oscillation_periodic: "oscillation (t + 1) = oscillation t"
proof -
  have "(t + 1) * pi * 2 = t * pi * 2 + 2 * pi" by (simp add: algebra_simps)
  then show ?thesis by (simp add: oscillation_def)
qed

lemma scaleAt_range:
  assumes "0 < endSizePct p" "endSizePct p \<le> 1" "0 \<le> separation p"
  shows "minScale p \<le> scaleAt p t \<and> scaleAt p t \<le> maxScale p"
proof -
  have mx: "0 \<le> maxScale p" using assms(3) by (simp add: maxScale_def R_OUT_def)
  have "maxScale p * endSizePct p \<le> maxScale p * 1"
    using mx assms(2) by (intro mult_left_mono) simp_all
  then have d: "0 \<le> maxScale p - minScale p" by (simp add: minScale_def)
  have lo: "0 \<le> (maxScale p - minScale p) * oscillation t"
    using d oscillation_range [of t] by simp
  have "(maxScale p - minScale p) * oscillation t \<le> (maxScale p - minScale p) * 1"
    using d oscillation_range [of t] by (intro mult_left_mono) simp_all
  then show ?thesis using lo by (simp add: scaleAt_def)
qed

lemma cyclePos_range:
  assumes "0 < speed p" "0 \<le> E"
  shows "0 \<le> cyclePos p E \<and> cyclePos p E < 1"
proof -
  have cd: "0 < cycleDuration p" using assms(1) by (simp add: cycleDuration_def)
  have "0 \<le> js_rem E (cycleDuration p)" using cd assms(2) by (rule js_rem_nonneg)
  moreover have "js_rem E (cycleDuration p) < cycleDuration p"
    using js_rem_bound [OF cd, of E] by simp
  ultimately show ?thesis using cd by (simp add: cyclePos_def)
qed

text \<open>C5: the oscillation \<open>t \<mapsto> (cos (2 * pi * t) + 1) / 2\<close> is \<open>1\<close> at \<open>0\<close>, \<open>0\<close> at \<open>1/2\<close>
  and has period \<open>1\<close>. So for every cycle position \<open>t\<close> in \<open>[0, 1)\<close> and parameters with
  \<open>0 < endSizePct \<le> 1\<close> (and a separation that is not negative, as the data model and
  the slider of the application have it) the scale \<open>minScale + (maxScale - minScale) *
  oscillation t\<close> lies in \<open>[minScale, maxScale]\<close>, and it is \<open>maxScale\<close> at \<open>t = 0\<close>. The
  scale of a frame is this value at the cycle position, which lies in \<open>[0, 1)\<close> when
  the speed is positive and the elapsed time is not negative.\<close>

theorem oscillation_and_scale_range:
  "oscillation 0 = 1 \<and> oscillation (1 / 2) = 0 \<and> oscillation 1 = 1 \<and>
   (\<forall>x. oscillation (x + 1) = oscillation x) \<and>
   (0 \<le> t \<and> t < 1 \<and> 0 < endSizePct p \<and> endSizePct p \<le> 1 \<and> 0 \<le> separation p \<longrightarrow>
      minScale p \<le> scaleAt p t \<and> scaleAt p t \<le> maxScale p) \<and>
   scaleAt p 0 = maxScale p \<and>
   scale (animate p time rnd1 rnd2 s) = scaleAt p (cyclePos p (time - frameStart s time)) \<and>
   (0 < speed p \<and> 0 \<le> E \<longrightarrow> 0 \<le> cyclePos p E \<and> cyclePos p E < 1)"
proof -
  have a: "oscillation 0 = 1" "oscillation (1 / 2) = 0" "oscillation 1 = 1"
    by (simp_all add: oscillation_def)
  have b: "scaleAt p 0 = maxScale p" by (simp add: scaleAt_def a)
  have c: "scale (animate p time rnd1 rnd2 s) = scaleAt p (cyclePos p (time - frameStart s time))"
    by (simp add: animate_scale currentScale_def)
  from a b c oscillation_periodic scaleAt_range [of p t] cyclePos_range [of p E]
  show ?thesis by blast
qed

theorem oscillation_and_scale_range_witness:
  "(0::real) \<le> 1 / 2 \<and> (1 / 2 :: real) < 1 \<and> 0 < endSizePct appDefaults \<and>
   endSizePct appDefaults \<le> 1 \<and> 0 \<le> separation appDefaults \<and>
   minScale appDefaults \<le> scaleAt appDefaults (1 / 2) \<and>
   scaleAt appDefaults (1 / 2) \<le> maxScale appDefaults \<and>
   scaleAt appDefaults (1 / 2) = 2 \<and>
   0 < speed appDefaults \<and> cyclePos appDefaults 4000 = 1 / 2"
proof -
  have h: "0 < endSizePct appDefaults" "endSizePct appDefaults \<le> 1" "0 \<le> separation appDefaults"
    "0 < speed appDefaults"
    by (simp_all add: appDefaults_def)
  have v: "scaleAt appDefaults (1 / 2) = 2"
    by (simp add: scaleAt_def oscillation_def appDefaults_consts)
  have w: "cyclePos appDefaults 4000 = 1 / 2"
    by (simp add: cyclePos_def appDefaults_consts js_rem_numerals)
  from oscillation_and_scale_range [of "1 / 2" appDefaults 0 0 0 startedAt0 4000] h v w show ?thesis
    by simp
qed

section \<open>Rotation\<close>

lemma rotationStep_smoothed:
  "0 < rotationSpeed p \<Longrightarrow>
     smoothedDirectionRef (rotationStep p time dt rnd1 rnd2 s) =
       smoothedDirectionRef s +
         (targetDirectionRef (rotationStep p time dt rnd1 rnd2 s) - smoothedDirectionRef s) * 0.02"
  by (simp add: rotationStep_def Let_def)

lemma rotationStep_target:
  "targetDirectionRef s \<in> {- 1, 1} \<Longrightarrow> targetDirectionRef (rotationStep p time dt rnd1 rnd2 s) \<in> {- 1, 1}"
  by (simp add: rotationStep_def Let_def)

lemma animate_target:
  "targetDirectionRef (animate p time rnd1 rnd2 s) =
     targetDirectionRef (rotationStep p time (frameDelta s time) rnd1 rnd2 s)"
  by (simp add: animate_def rotationStep_def Let_def)

lemma animate_smoothed:
  "smoothedDirectionRef (animate p time rnd1 rnd2 s) =
     smoothedDirectionRef (rotationStep p time (frameDelta s time) rnd1 rnd2 s)"
  by (simp add: animate_def rotationStep_def Let_def)

lemma lerp_contracts:
  fixes x y :: real
  assumes "\<bar>x\<bar> \<le> 1" "\<bar>y\<bar> \<le> 1"
  shows "\<bar>x + (y - x) * 0.02\<bar> \<le> 1"
proof -
  have e: "x + (y - x) * 0.02 = (49 * x + y) / 50" by (simp add: field_simps)
  have "\<bar>49 * x + y\<bar> \<le> 50" using assms by linarith
  then have "\<bar>(49 * x + y) / 50\<bar> \<le> 1" by simp
  then show ?thesis by (simp only: e)
qed

lemma rotationStep_direction_inv:
  assumes "targetDirectionRef s \<in> {- 1, 1}" "\<bar>smoothedDirectionRef s\<bar> \<le> 1"
  shows "targetDirectionRef (rotationStep p time dt rnd1 rnd2 s) \<in> {- 1, 1} \<and>
         \<bar>smoothedDirectionRef (rotationStep p time dt rnd1 rnd2 s)\<bar> \<le> 1"
proof (cases "0 < rotationSpeed p")
  case True
  have t: "targetDirectionRef (rotationStep p time dt rnd1 rnd2 s) \<in> {- 1, 1}"
    using assms(1) by (rule rotationStep_target)
  then have "\<bar>targetDirectionRef (rotationStep p time dt rnd1 rnd2 s)\<bar> \<le> 1" by auto
  from lerp_contracts [OF assms(2) this] t show ?thesis
    by (simp only: rotationStep_smoothed [OF True] simp_thms)
next
  case False
  then show ?thesis using assms by (simp add: rotationStep_def)
qed

lemma animate_direction_inv:
  assumes "targetDirectionRef s \<in> {- 1, 1}" "\<bar>smoothedDirectionRef s\<bar> \<le> 1"
  shows "targetDirectionRef (animate p time rnd1 rnd2 s) \<in> {- 1, 1} \<and>
         \<bar>smoothedDirectionRef (animate p time rnd1 rnd2 s)\<bar> \<le> 1"
  using rotationStep_direction_inv [OF assms] by (simp only: animate_target animate_smoothed)

lemma effect_direction:
  "targetDirectionRef (effect b p now s) = targetDirectionRef s"
  "smoothedDirectionRef (effect b p now s) = smoothedDirectionRef s"
  "currentRotationRef (effect b p now s) = currentRotationRef s"
  "rotation (effect b p now s) = rotation s"
  by (simp_all add: effect_def Let_def)

lemma cleanup_direction:
  "targetDirectionRef (cleanup s) = targetDirectionRef s"
  "smoothedDirectionRef (cleanup s) = smoothedDirectionRef s"
  "currentRotationRef (cleanup s) = currentRotationRef s"
  "rotation (cleanup s) = rotation s"
  by (simp_all add: cleanup_def)

lemma step_direction_inv:
  assumes "targetDirectionRef (refs c) \<in> {- 1, 1} \<and> \<bar>smoothedDirectionRef (refs c)\<bar> \<le> 1"
  shows "targetDirectionRef (refs (step c e)) \<in> {- 1, 1} \<and>
         \<bar>smoothedDirectionRef (refs (step c e))\<bar> \<le> 1"
proof (cases e)
  case (SetPlaying b now)
  then show ?thesis using assms by (simp add: effect_direction cleanup_direction)
next
  case (SetParams q now)
  then show ?thesis using assms by (simp add: effect_direction cleanup_direction)
next
  case (Frame time rnd1 rnd2)
  show ?thesis
  proof (cases "requestRef (refs c)")
    case True
    with Frame animate_direction_inv [of "refs c" "props c" time rnd1 rnd2] assms
    show ?thesis by simp
  next
    case False
    with Frame assms show ?thesis by simp
  qed
qed

lemma run_direction_inv:
  "targetDirectionRef (refs c) \<in> {- 1, 1} \<and> \<bar>smoothedDirectionRef (refs c)\<bar> \<le> 1 \<Longrightarrow>
   targetDirectionRef (refs (run c evs)) \<in> {- 1, 1} \<and>
   \<bar>smoothedDirectionRef (refs (run c evs))\<bar> \<le> 1"
proof (induction evs arbitrary: c)
  case Nil
  then show ?case by (simp add: run_def)
next
  case (Cons e evs)
  from Cons.IH [OF step_direction_inv [OF Cons.prems, of e]]
  show ?case by (simp add: run_def)
qed

lemma mount_direction:
  "targetDirectionRef (refs (mount b p now)) = 1"
  "smoothedDirectionRef (refs (mount b p now)) = 0"
  "currentRotationRef (refs (mount b p now)) = 0"
  "rotation (refs (mount b p now)) = 0"
  by (simp_all add: mount_def effect_direction initial_def)

text \<open>C6: a frame with the rotation active updates the smoothed direction to
  \<open>smoothed + (target - smoothed) * 0.02\<close>, where \<open>target\<close> is the target direction in
  force in that frame (after the re-roll, when there is one), and the target stays in
  \<open>{-1, 1}\<close>. So between two consecutive frames the smoothed direction moves by at most
  \<open>0.02 * \<bar>target - smoothed\<bar>\<close>, and \<open>smoothed \<in> [-1, 1]\<close> is preserved by every frame; it
  holds in every state the component reaches from its initial state, where the smoothed
  direction is \<open>0\<close>.\<close>

theorem direction_smoothing:
  "(0 < rotationSpeed p \<longrightarrow>
      smoothedDirectionRef (animate p time rnd1 rnd2 s) =
        smoothedDirectionRef s +
          (targetDirectionRef (animate p time rnd1 rnd2 s) - smoothedDirectionRef s) * 0.02) \<and>
   (targetDirectionRef s \<in> {- 1, 1} \<longrightarrow>
      targetDirectionRef (animate p time rnd1 rnd2 s) \<in> {- 1, 1}) \<and>
   \<bar>smoothedDirectionRef (animate p time rnd1 rnd2 s) - smoothedDirectionRef s\<bar>
     \<le> 0.02 * \<bar>targetDirectionRef (animate p time rnd1 rnd2 s) - smoothedDirectionRef s\<bar> \<and>
   (targetDirectionRef s \<in> {- 1, 1} \<and> \<bar>smoothedDirectionRef s\<bar> \<le> 1 \<longrightarrow>
      \<bar>smoothedDirectionRef (animate p time rnd1 rnd2 s)\<bar> \<le> 1) \<and>
   smoothedDirectionRef (initial p) = 0 \<and>
   targetDirectionRef (refs (run (mount b p now) evs)) \<in> {- 1, 1} \<and>
   \<bar>smoothedDirectionRef (refs (run (mount b p now) evs))\<bar> \<le> 1"
proof -
  let ?s' = "animate p time rnd1 rnd2 s"
  have a: "smoothedDirectionRef ?s' =
        smoothedDirectionRef s + (targetDirectionRef ?s' - smoothedDirectionRef s) * 0.02"
    if "0 < rotationSpeed p"
    using rotationStep_smoothed [OF that] by (simp only: animate_target animate_smoothed)
  have b: "targetDirectionRef ?s' \<in> {- 1, 1}" if "targetDirectionRef s \<in> {- 1, 1}"
    using rotationStep_target [OF that] by (simp only: animate_target)
  have c: "\<bar>smoothedDirectionRef ?s' - smoothedDirectionRef s\<bar>
     \<le> 0.02 * \<bar>targetDirectionRef ?s' - smoothedDirectionRef s\<bar>"
  proof (cases "0 < rotationSpeed p")
    case True
    show ?thesis by (simp add: a [OF True] abs_mult)
  next
    case False
    then have "smoothedDirectionRef ?s' = smoothedDirectionRef s"
      by (simp add: animate_smoothed rotationStep_def)
    then show ?thesis by simp
  qed
  have d: "\<bar>smoothedDirectionRef ?s'\<bar> \<le> 1"
    if "targetDirectionRef s \<in> {- 1, 1} \<and> \<bar>smoothedDirectionRef s\<bar> \<le> 1"
    using animate_direction_inv [of s p time rnd1 rnd2] that by blast
  have e: "smoothedDirectionRef (initial p) = 0" by (simp add: initial_def)
  have f: "targetDirectionRef (refs (run (mount b p now) evs)) \<in> {- 1, 1} \<and>
   \<bar>smoothedDirectionRef (refs (run (mount b p now) evs))\<bar> \<le> 1"
    by (rule run_direction_inv) (simp add: mount_direction)
  from a b c d e f show ?thesis by blast
qed

theorem direction_smoothing_witness:
  "0 < rotationSpeed appDefaults \<and> targetDirectionRef startedAt0 \<in> {- 1, 1} \<and>
   \<bar>smoothedDirectionRef startedAt0\<bar> \<le> 1 \<and>
   targetDirectionRef (animate appDefaults 16 0 0 startedAt0) = - 1 \<and>
   smoothedDirectionRef (animate appDefaults 16 0 0 startedAt0) = - 0.02 \<and>
   \<bar>smoothedDirectionRef (animate appDefaults 16 0 0 startedAt0)\<bar> \<le> 1"
proof -
  have h: "0 < rotationSpeed appDefaults" "targetDirectionRef startedAt0 \<in> {- 1, 1}"
    "\<bar>smoothedDirectionRef startedAt0\<bar> \<le> 1" "smoothedDirectionRef startedAt0 = 0"
    by (simp_all add: appDefaults_def startedAt0_def initial_def)
  have t: "targetDirectionRef (animate appDefaults 16 0 0 startedAt0) = - 1"
    by (simp add: animate_target rotationStep_def Let_def appDefaults_def startedAt0_def initial_def)
  from direction_smoothing [of appDefaults 16 0 0 startedAt0 False 0 "[]"] h t show ?thesis
    by simp
qed

lemma animate_lastFrame_irrelevant_after_play:
  "animate p time rnd1 rnd2 (effect True p' now (s \<lparr> lastFrameTimeRef := l \<rparr>)) =
   animate p time rnd1 rnd2 (effect True p' now s)"
  by (simp add: effect_def)

lemma animate_rotation_eq:
  "currentRotationRef (animate p time rnd1 rnd2 s) =
     currentRotationRef (rotationStep p time (frameDelta s time) rnd1 rnd2 s)"
  by (simp add: animate_def rotationStep_def Let_def)

text \<open>C7 (as amended): on every transition from stopped to running at timestamp \<open>now\<close>
  the last-frame timestamp is set to \<open>now\<close>. The first frame after it computes the frame
  delta \<open>time - now\<close> when \<open>now \<noteq> 0\<close>; when \<open>now = 0\<close> the frame callback reads the
  timestamp \<open>0\<close> as not yet set and the delta is \<open>0\<close>. In both cases the rotation step uses
  this delta, and the frame does not depend on the last-frame timestamp from before the
  pause.\<close>

theorem resume_reseeds_frame_time:
  "lastFrameTimeRef (effect True p now s) = now \<and>
   (now \<noteq> 0 \<longrightarrow> frameDelta (effect True p now s) time = time - now) \<and>
   (now = 0 \<longrightarrow> frameDelta (effect True p now s) time = 0) \<and>
   currentRotationRef (animate p time rnd1 rnd2 (effect True p now s)) =
     currentRotationRef
       (rotationStep p time (frameDelta (effect True p now s) time) rnd1 rnd2 (effect True p now s)) \<and>
   animate p time rnd1 rnd2 (effect True p now (s \<lparr> lastFrameTimeRef := l \<rparr>)) =
     animate p time rnd1 rnd2 (effect True p now s)"
proof -
  have a: "lastFrameTimeRef (effect True p now s) = now" by (simp add: effect_def)
  have b: "frameDelta (effect True p now s) time = time - now" if "now \<noteq> 0"
    using that by (simp add: frameDelta_def a)
  have c: "frameDelta (effect True p now s) time = 0" if "now = 0"
    using a that by (simp add: frameDelta_def)
  from a b c animate_rotation_eq animate_lastFrame_irrelevant_after_play show ?thesis by blast
qed

theorem resume_reseeds_frame_time_witness:
  "(5000::real) \<noteq> 0 \<and>
   lastFrameTimeRef (effect True appDefaults 5000 ((initial appDefaults) \<lparr> lastFrameTimeRef := 1000 \<rparr>)) = 5000 \<and>
   frameDelta (effect True appDefaults 5000 ((initial appDefaults) \<lparr> lastFrameTimeRef := 1000 \<rparr>)) 5016 = 16 \<and>
   frameDelta (effect True appDefaults 0 ((initial appDefaults) \<lparr> lastFrameTimeRef := 1000 \<rparr>)) 5016 = 0"
  using resume_reseeds_frame_time [of appDefaults 5000 "(initial appDefaults) \<lparr> lastFrameTimeRef := 1000 \<rparr>" 5016 0 0 0]
    resume_reseeds_frame_time [of appDefaults 0 "(initial appDefaults) \<lparr> lastFrameTimeRef := 1000 \<rparr>" 5016 0 0 0]
  by simp

text \<open>The claim as first stated, that the first frame after a resume at \<open>now\<close> always
  computes the delta \<open>time - now\<close>, fails for a resume at timestamp \<open>0\<close>: the frame at
  \<open>16\<close> computes the delta \<open>0\<close>.\<close>

theorem resume_at_zero_counterexample:
  "lastFrameTimeRef (effect True appDefaults 0 (initial appDefaults)) = 0 \<and>
   frameDelta (effect True appDefaults 0 (initial appDefaults)) 16 = 0 \<and>
   frameDelta (effect True appDefaults 0 (initial appDefaults)) 16 \<noteq> 16 - 0"
  by (simp add: effect_def frameDelta_def)

lemma animate_no_rotation:
  assumes "rotationSpeed p = 0"
  shows "currentRotationRef (animate p time rnd1 rnd2 s) = currentRotationRef s"
    "targetDirectionRef (animate p time rnd1 rnd2 s) = targetDirectionRef s"
    "smoothedDirectionRef (animate p time rnd1 rnd2 s) = smoothedDirectionRef s"
    "nextDirectionChangeTimeRef (animate p time rnd1 rnd2 s) = nextDirectionChangeTimeRef s"
    "rotation (animate p time rnd1 rnd2 s) = currentRotationRef s"
  using assms by (simp_all add: animate_def rotationStep_def Let_def)

lemma frames_snoc:
  "frames p (fs @ [(time, rnd1, rnd2)]) s = animate p time rnd1 rnd2 (frames p fs s)"
  by (simp add: frames_def)

text \<open>C8: with \<open>rotationSpeed = 0\<close> no sequence of frames changes the rotation state:
  the current angle, the target direction, the smoothed direction and the time of the
  next direction change are what they were, and the rotation that a frame emits is the
  unchanged current angle.\<close>

theorem zero_rotation_speed_frames:
  assumes "rotationSpeed p = 0"
  shows "currentRotationRef (frames p fs s) = currentRotationRef s \<and>
         targetDirectionRef (frames p fs s) = targetDirectionRef s \<and>
         smoothedDirectionRef (frames p fs s) = smoothedDirectionRef s \<and>
         nextDirectionChangeTimeRef (frames p fs s) = nextDirectionChangeTimeRef s \<and>
         (fs \<noteq> [] \<longrightarrow> rotation (frames p fs s) = currentRotationRef s)"
proof (induction fs rule: rev_induct)
  case Nil
  show ?case by (simp add: frames_def)
next
  case (snoc f fs)
  obtain time rnd1 rnd2 where f: "f = (time, rnd1, rnd2)" by (cases f)
  from snoc show ?case
    by (simp add: f frames_snoc animate_no_rotation [OF assms])
qed

theorem zero_rotation_speed_frames_witness:
  "rotationSpeed (appDefaults \<lparr> rotationSpeed := 0 \<rparr>) = 0 \<and>
   currentRotationRef (frames (appDefaults \<lparr> rotationSpeed := 0 \<rparr>) [(16, 0.9, 0.1), (33, 0.2, 0.7)]
     (startedAt0 \<lparr> currentRotationRef := 42 \<rparr>)) = 42 \<and>
   rotation (frames (appDefaults \<lparr> rotationSpeed := 0 \<rparr>) [(16, 0.9, 0.1), (33, 0.2, 0.7)]
     (startedAt0 \<lparr> currentRotationRef := 42 \<rparr>)) = 42 \<and>
   smoothedDirectionRef (frames (appDefaults \<lparr> rotationSpeed := 0 \<rparr>) [(16, 0.9, 0.1), (33, 0.2, 0.7)]
     (startedAt0 \<lparr> currentRotationRef := 42 \<rparr>)) = 0"
proof -
  have h: "rotationSpeed (appDefaults \<lparr> rotationSpeed := 0 \<rparr>) = 0" by simp
  from zero_rotation_speed_frames [OF h, of "[(16, 0.9, 0.1), (33, 0.2, 0.7)]" "startedAt0 \<lparr> currentRotationRef := 42 \<rparr>"]
  show ?thesis by (simp add: startedAt0_def initial_def)
qed

lemma rotationStep_angle:
  "0 < rotationSpeed p \<Longrightarrow> \<bar>currentRotationRef (rotationStep p time dt rnd1 rnd2 s)\<bar> < 360"
  by (simp add: rotationStep_def Let_def js_rem_bound)

lemma animate_rotation_emitted:
  "rotation (animate p time rnd1 rnd2 s) = currentRotationRef (animate p time rnd1 rnd2 s)"
  by (simp add: animate_def Let_def)

lemma animate_angle_inv:
  assumes "\<bar>currentRotationRef s\<bar> < 360"
  shows "\<bar>currentRotationRef (animate p time rnd1 rnd2 s)\<bar> < 360"
proof (cases "0 < rotationSpeed p")
  case True
  then show ?thesis by (simp only: animate_rotation_eq rotationStep_angle)
next
  case False
  then show ?thesis using assms by (simp add: animate_rotation_eq rotationStep_def)
qed

lemma step_angle_inv:
  assumes "\<bar>currentRotationRef (refs c)\<bar> < 360 \<and> \<bar>rotation (refs c)\<bar> < 360"
  shows "\<bar>currentRotationRef (refs (step c e))\<bar> < 360 \<and> \<bar>rotation (refs (step c e))\<bar> < 360"
proof (cases e)
  case (SetPlaying b now)
  then show ?thesis using assms by (simp add: effect_direction cleanup_direction)
next
  case (SetParams q now)
  then show ?thesis using assms by (simp add: effect_direction cleanup_direction)
next
  case (Frame time rnd1 rnd2)
  show ?thesis
  proof (cases "requestRef (refs c)")
    case True
    have "\<bar>currentRotationRef (animate (props c) time rnd1 rnd2 (refs c))\<bar> < 360"
      using assms by (intro animate_angle_inv) simp
    with Frame True show ?thesis by (simp add: animate_rotation_emitted)
  next
    case False
    with Frame assms show ?thesis by simp
  qed
qed

lemma run_angle_inv:
  "\<bar>currentRotationRef (refs c)\<bar> < 360 \<and> \<bar>rotation (refs c)\<bar> < 360 \<Longrightarrow>
   \<bar>currentRotationRef (refs (run c evs))\<bar> < 360 \<and> \<bar>rotation (refs (run c evs))\<bar> < 360"
proof (induction evs arbitrary: c)
  case Nil
  then show ?case by (simp add: run_def)
next
  case (Cons e evs)
  from Cons.IH [OF step_angle_inv [OF Cons.prems, of e]]
  show ?case by (simp add: run_def)
qed

text \<open>C10: after a frame with the rotation active the angle satisfies
  \<open>\<bar>currentRotationRef\<bar> < 360\<close>, and so do the angle and the emitted rotation in every
  state the component reaches. The angle is not normalised to \<open>[0, 360)\<close>: the remainder
  keeps the sign of the accumulated rotation, it is the accumulated rotation itself when
  that lies in \<open>(-360, 0)\<close>, and a run of the application's default parameters emits the
  rotation \<open>-1.8\<close>.\<close>

theorem rotation_angle_bound:
  "(0 < rotationSpeed p \<longrightarrow> \<bar>currentRotationRef (animate p time rnd1 rnd2 s)\<bar> < 360) \<and>
   \<bar>currentRotationRef (refs (run (mount b p now) evs))\<bar> < 360 \<and>
   \<bar>rotation (refs (run (mount b p now) evs))\<bar> < 360 \<and>
   (\<forall>x. x \<le> 0 \<longrightarrow> js_rem x 360 \<le> 0) \<and>
   (\<forall>x. - 360 < x \<and> x < 0 \<longrightarrow> js_rem x 360 = x) \<and>
   rotation (refs (run (mount False appDefaults 0) [SetPlaying True 1000, Frame 3000 0.25 0.5]))
     = - 1.8"
proof -
  have a: "\<bar>currentRotationRef (animate p time rnd1 rnd2 s)\<bar> < 360" if "0 < rotationSpeed p"
    using that by (simp only: animate_rotation_eq rotationStep_angle)
  have b: "\<bar>currentRotationRef (refs (run (mount b p now) evs))\<bar> < 360 \<and>
   \<bar>rotation (refs (run (mount b p now) evs))\<bar> < 360"
    by (rule run_angle_inv) (simp add: mount_direction)
  have c: "js_rem x 360 \<le> 0" if "x \<le> 0" for x
    using that by (intro js_rem_nonpos) simp_all
  have d: "js_rem x 360 = x" if "- 360 < x \<and> x < 0" for x
    using that by (intro js_rem_small) simp
  have e: "rotation (refs (run (mount False appDefaults 0) [SetPlaying True 1000, Frame 3000 0.25 0.5]))
     = - 1.8"
    by (simp add: run_def mount_def effect_def cleanup_def initial_def animate_def rotationStep_def
      frameStart_def frameDelta_def appDefaults_def Let_def js_rem_small)
  from a b c d e show ?thesis by blast
qed

theorem rotation_angle_bound_witness:
  "0 < rotationSpeed appDefaults \<and>
   \<bar>currentRotationRef (animate appDefaults 16 0 0 startedAt0)\<bar> < 360 \<and>
   (- 1 :: real) \<le> 0 \<and> js_rem (- 1) 360 \<le> 0 \<and>
   (- 360 :: real) < - 1 \<and> (- 1 :: real) < 0 \<and> js_rem (- 1) 360 = - 1"
proof -
  have h: "0 < rotationSpeed appDefaults" by (simp add: appDefaults_def)
  from rotation_angle_bound [of appDefaults 16 0 0 startedAt0 False 0 "[]"] h show ?thesis
    by simp
qed

end
